theory Spec2Isabelle
  imports Main "HOL-Library.Sublist" "HOL-Library.Multiset"
begin

section \<open>Python values used by the travel planner backend\<close>

text \<open>
  A Python \<^verbatim>\<open>str\<close> is a sequence of Unicode code points; slicing, \<^verbatim>\<open>replace\<close>,
  \<^verbatim>\<open>strip\<close> and \<^verbatim>\<open>lower\<close> all count code points. A string is therefore a list of
  code points (natural numbers), and \<open>lit\<close> turns an ASCII literal into that form.
  The two non-ASCII characters of the templates in \<^verbatim>\<open>main.py\<close> are written by their
  code points: the bullet U+2022 and the non-breaking hyphen U+2011.
\<close>

type_synonym str = "nat list"

definition lit :: "string \<Rightarrow> str" where
  "lit s = map of_char s"

definition bullet :: nat where
  "bullet = 8226"

definition nb_hyphen :: nat where
  "nb_hyphen = 8209"

text \<open>\<^verbatim>\<open>x or default\<close> on an optional string: \<^verbatim>\<open>None\<close> and \<^verbatim>\<open>""\<close> are both falsy.\<close>

fun or_else :: "str option \<Rightarrow> str \<Rightarrow> str" where
  "or_else None d = d"
| "or_else (Some s) d = (if s = [] then d else s)"

text \<open>\<^verbatim>\<open>str(n)\<close> and \<^verbatim>\<open>f"{n}"\<close> for an integer: decimal digits, a minus sign below zero.\<close>

fun digits :: "nat \<Rightarrow> str" where
  "digits n = (if n < 10 then [48 + n] else digits (n div 10) @ [48 + n mod 10])"

declare digits.simps [simp del]

definition str_int :: "int \<Rightarrow> str" where
  "str_int i = (if i < 0 then 45 # digits (nat (- i)) else digits (nat i))"

text \<open>
  \<^verbatim>\<open>s.lower()\<close>. On a string of ASCII code points it maps \<^verbatim>\<open>A..Z\<close> to \<^verbatim>\<open>a..z\<close>
  and leaves the rest. On any other string the result comes from the interpreter's
  Unicode tables (with context rules such as the final sigma); those tables are the
  parameter \<open>ulower\<close>, about which nothing is assumed.
\<close>

definition ascii_lower :: "nat \<Rightarrow> nat" where
  "ascii_lower c = (if 65 \<le> c \<and> c \<le> 90 then c + 32 else c)"

definition is_ascii :: "str \<Rightarrow> bool" where
  "is_ascii s = list_all (\<lambda>c. c < 128) s"

definition lower :: "(str \<Rightarrow> str) \<Rightarrow> str \<Rightarrow> str" where
  "lower ulower s = (if is_ascii s then map ascii_lower s else ulower s)"

text \<open>
  \<^verbatim>\<open>s.strip()\<close> removes leading and trailing whitespace, which for \<^verbatim>\<open>str\<close> is the
  set of code points for which \<^verbatim>\<open>isspace()\<close> holds.
\<close>

definition isspace :: "nat \<Rightarrow> bool" where
  "isspace c = ((9 \<le> c \<and> c \<le> 13) \<or> (28 \<le> c \<and> c \<le> 32) \<or> c = 133 \<or> c = 160
     \<or> c = 5760 \<or> (8192 \<le> c \<and> c \<le> 8202) \<or> c = 8232 \<or> c = 8233
     \<or> c = 8239 \<or> c = 8287 \<or> c = 12288)"

definition strip :: "str \<Rightarrow> str" where
  "strip s = rev (dropWhile isspace (rev (dropWhile isspace s)))"

text \<open>
  \<^verbatim>\<open>s.replace(old, new)\<close>: every occurrence of \<open>old\<close>, found left to right without
  overlap, is replaced. With an empty \<open>old\<close>, \<open>new\<close> is put before every code point
  and at the end.
\<close>

function replace :: "str \<Rightarrow> str \<Rightarrow> str \<Rightarrow> str" where
  "replace [] old new = (if old = [] then new else [])"
| "replace (c # cs) old new =
     (if old = [] then new @ c # replace cs old new
      else if prefix old (c # cs) then new @ replace (drop (length old) (c # cs)) old new
      else c # replace cs old new)"
  by pat_completeness auto
termination
  by (relation "measure (\<lambda>(s, old, new). length s)") auto

section \<open>The itinerary generator\<close>

record DayPlan =
  day :: int
  theme :: str
  morning :: str
  afternoon :: str
  evening :: str

text \<open>The three values of the dictionary \<^verbatim>\<open>budget_hint\<close> and the dictionary itself.\<close>

definition shoestring_hints :: "str list" where
  "shoestring_hints = [lit ''street food'', lit ''free walking tours'', lit ''public transit'']"

definition standard_hints :: "str list" where
  "standard_hints = [lit ''local bistros'', lit ''top sights'', lit ''rideshare'']"

definition luxury_hints :: "str list" where
  "luxury_hints = [lit ''fine dining'', lit ''private tours'', lit ''chauffeur'']"

definition budget_hint :: "str \<Rightarrow> str list option" where
  "budget_hint = map_of
     [(lit ''shoestring'', shoestring_hints),
      (lit ''standard'', standard_hints),
      (lit ''luxury'', luxury_hints)]"

text \<open>
  \<^verbatim>\<open>budget_hint.get((budget or "standard").lower(), budget_hint["standard"])\<close>
\<close>

definition resolve_hints :: "(str \<Rightarrow> str) \<Rightarrow> str option \<Rightarrow> str list" where
  "resolve_hints ulower budget =
     (case budget_hint (lower ulower (or_else budget (lit ''standard''))) of
        Some h \<Rightarrow> h
      | None \<Rightarrow> standard_hints)"

text \<open>The dictionary built in the body of the loop, for day \<open>d\<close>.\<close>

definition day_plan :: "str list \<Rightarrow> str \<Rightarrow> str option \<Rightarrow> int \<Rightarrow> DayPlan" where
  "day_plan hints prompt destination d =
     \<lparr>day = d,
      theme = lit ''Day '' @ str_int d @ lit '' '' @ [bullet] @ lit '' ''
                @ or_else destination (lit ''Explorer''),
      morning = lit ''Start with '' @ hints ! 0
                @ lit '' near the main square. Stroll through a scenic district inspired by: ''
                @ take 80 prompt,
      afternoon = lit ''Visit two must'' @ [nb_hyphen]
                @ lit ''see spots. Consider a museum or viewpoint. Use '' @ hints ! 1 @ lit ''.'',
      evening = lit ''Dinner with a view, then a relaxing walk. End with '' @ hints ! 2
                @ lit '' back to stay.''\<rparr>"

text \<open>
  \<^verbatim>\<open>for d in range(1, days + 1): ... itinerary.append(day_plan)\<close>: the loop counter
  \<open>d\<close>, the exclusive bound \<open>stop\<close> and the list built so far.
\<close>

function generate_loop :: "str list \<Rightarrow> str \<Rightarrow> str option \<Rightarrow> int \<Rightarrow> int \<Rightarrow> DayPlan list \<Rightarrow> DayPlan list" where
  "generate_loop hints prompt destination d stop itinerary =
     (if d < stop
      then generate_loop hints prompt destination (d + 1) stop
             (itinerary @ [day_plan hints prompt destination d])
      else itinerary)"
  by pat_completeness auto
termination
  by (relation "measure (\<lambda>(hints, prompt, destination, d, stop, itinerary). nat (stop - d))") auto

declare generate_loop.simps [simp del]

definition generate_itinerary :: "(str \<Rightarrow> str) \<Rightarrow> str \<Rightarrow> int \<Rightarrow> str option \<Rightarrow> str option \<Rightarrow> DayPlan list" where
  "generate_itinerary ulower prompt days destination budget =
     generate_loop (resolve_hints ulower budget) prompt destination 1 (days + 1) []"

section \<open>The document store\<close>

text \<open>
  The handle \<^verbatim>\<open>db\<close> is \<^verbatim>\<open>None\<close> when no store is configured, and otherwise gives
  the two collections \<^verbatim>\<open>db["user"]\<close> and \<^verbatim>\<open>db["trip"]\<close>, each a list of documents
  in insertion order. Documents follow \<^verbatim>\<open>schemas.py\<close>. An \<^verbatim>\<open>ObjectId\<close> is kept as
  its hexadecimal text, which is what \<^verbatim>\<open>str(_id)\<close> returns; the field \<^verbatim>\<open>_id\<close> is
  called \<open>oid\<close>. A UTC timestamp is an integer count of clock ticks.
\<close>

datatype ObjectId = ObjectId (hex: str)

record user =
  oid :: ObjectId
  name :: str
  email :: str
  password_hash :: str
  salt :: str
  tokens :: "str list"
  created_at :: int
  updated_at :: int

text \<open>
  A trip document. It is stored with an \<^verbatim>\<open>ObjectId\<close> and returned to the client
  with that id turned into a string, so the type of the id is a parameter.
\<close>

record 'id trip =
  oid :: 'id
  user_id :: str
  title :: str
  prompt :: str
  days :: int
  itinerary :: "DayPlan list"
  destination :: "str option"
  budget :: "str option"
  created_at :: int
  updated_at :: int

record store =
  user_collection :: "user list"
  trip_collection :: "ObjectId trip list"

text \<open>
  \<^verbatim>\<open>find_one(filter)\<close> returns the first document that matches, \<^verbatim>\<open>update_one\<close>
  changes the first document that matches, and \<^verbatim>\<open>find(filter).sort(key, -1)\<close>
  returns the matching documents in descending order of the key.
\<close>

fun update_one :: "('a \<Rightarrow> bool) \<Rightarrow> ('a \<Rightarrow> 'a) \<Rightarrow> 'a list \<Rightarrow> 'a list" where
  "update_one p f [] = []"
| "update_one p f (x # xs) = (if p x then f x # xs else x # update_one p f xs)"


section \<open>Requests, responses and errors\<close>

datatype error =
  HTTPException (status_code: nat) (detail: str)
| RequestValidationError
| UnicodeEncodeError

record LoginRequest =
  email :: str
  password :: str

record AuthResponse =
  token :: str
  name :: str
  email :: str

record TripCreateRequest =
  prompt :: str
  days :: int
  destination :: "str option"
  budget :: "str option"
  title :: "str option"

text \<open>
  The JSON body of \<^verbatim>\<open>POST /api/trips\<close> before validation: \<^verbatim>\<open>prompt\<close> is required
  (\<^verbatim>\<open>Field(...)\<close>), every other key may be missing.
\<close>

record TripCreateBody =
  body_prompt :: "str option"
  body_days :: "int option"
  body_destination :: "str option"
  body_budget :: "str option"
  body_title :: "str option"

section \<open>Utility functions\<close>

text \<open>
  \<^verbatim>\<open>s.encode()\<close> gives the UTF-8 bytes of a string and raises \<^verbatim>\<open>UnicodeEncodeError\<close>
  when the string holds a surrogate code point (U+D800 to U+DFFF), which a \<^verbatim>\<open>str\<close>
  may hold and UTF-8 cannot express.
\<close>

definition is_surrogate :: "nat \<Rightarrow> bool" where
  "is_surrogate c = (55296 \<le> c \<and> c \<le> 57343)"

definition utf8 :: "nat \<Rightarrow> nat list" where
  "utf8 c =
     (if c < 128 then [c]
      else if c < 2048 then [192 + c div 64, 128 + c mod 64]
      else if c < 65536 then [224 + c div 4096, 128 + c div 64 mod 64, 128 + c mod 64]
      else [240 + c div 262144, 128 + c div 4096 mod 64, 128 + c div 64 mod 64, 128 + c mod 64])"

definition encode :: "str \<Rightarrow> error + nat list" where
  "encode s = (if list_ex is_surrogate s then Inl UnicodeEncodeError else Inr (concat (map utf8 s)))"

text \<open>
  \<^verbatim>\<open>hashlib.sha256(bytes).hexdigest()\<close> is the parameter \<open>sha256_hexdigest\<close>, from bytes
  to the text of the digest: the hash function belongs to the standard library and
  nothing is assumed about it. \<^verbatim>\<open>_hash_password\<close> raises what \<^verbatim>\<open>encode\<close> raises.
\<close>

definition hash_password :: "(nat list \<Rightarrow> str) \<Rightarrow> str \<Rightarrow> str \<Rightarrow> error + str" where
  "hash_password sha256_hexdigest pw slt =
     (case encode (slt @ pw) of
        Inl e \<Rightarrow> Inl e
      | Inr bytes \<Rightarrow> Inr (sha256_hexdigest bytes))"

definition get_user_by_email :: "store option \<Rightarrow> str \<Rightarrow> user option" where
  "get_user_by_email db e =
     (case db of
        None \<Rightarrow> None
      | Some s \<Rightarrow> find (\<lambda>u. user.email u = e) (user_collection s))"

text \<open>The filter \<^verbatim>\<open>{"tokens": token}\<close> matches a user whose token array holds \<open>token\<close>.\<close>

definition get_user_by_token :: "store option \<Rightarrow> str \<Rightarrow> user option" where
  "get_user_by_token db tok =
     (if tok = [] then None
      else (case db of
              None \<Rightarrow> None
            | Some s \<Rightarrow> find (\<lambda>u. tok \<in> set (user.tokens u)) (user_collection s)))"

text \<open>
  \<^verbatim>\<open>(authorization or "").replace("Bearer ", "").strip()\<close>, the expression with which
  \<^verbatim>\<open>me\<close>, \<^verbatim>\<open>create_trip\<close> and \<^verbatim>\<open>list_trips\<close> read the token from the header.
\<close>

definition bearer_token :: "str option \<Rightarrow> str" where
  "bearer_token authorization = strip (replace (or_else authorization []) (lit ''Bearer '') [])"

section \<open>Routes\<close>

text \<open>
  A handler returns \<open>Inl\<close> of the error it raises or \<open>Inr\<close> of its response. A handler
  that writes to the store also returns the store after the write; every error is
  raised before any write. Values the handler draws from outside (a fresh token, the
  id the store assigns, readings of the clock) are arguments. An exception that the
  handler does not catch, such as \<^verbatim>\<open>UnicodeEncodeError\<close>, leaves it as that exception, and
  the server answers 500.
\<close>

definition login :: "(nat list \<Rightarrow> str) \<Rightarrow> store option \<Rightarrow> LoginRequest \<Rightarrow> str \<Rightarrow> int
    \<Rightarrow> error + AuthResponse \<times> store" where
  "login sha256_hexdigest db req fresh now =
     (case db of
        None \<Rightarrow> Inl (HTTPException 500 (lit ''Database not configured''))
      | Some s \<Rightarrow>
          (case get_user_by_email db (LoginRequest.email req) of
             None \<Rightarrow> Inl (HTTPException 401 (lit ''Invalid credentials''))
           | Some u \<Rightarrow>
               (case hash_password sha256_hexdigest (LoginRequest.password req) (user.salt u) of
                  Inl e \<Rightarrow> Inl e
                | Inr expected \<Rightarrow>
                    if expected \<noteq> user.password_hash u
                    then Inl (HTTPException 401 (lit ''Invalid credentials''))
                    else Inr (\<lparr>AuthResponse.token = fresh,
                               AuthResponse.name = user.name u,
                               AuthResponse.email = user.email u\<rparr>,
                              s\<lparr>user_collection :=
                                  update_one (\<lambda>v. user.oid v = user.oid u)
                                    (\<lambda>v. v\<lparr>user.tokens := user.tokens v @ [fresh],
                                            user.updated_at := now\<rparr>)
                                    (user_collection s)\<rparr>))))"

definition me :: "store option \<Rightarrow> str option \<Rightarrow> error + str \<times> str" where
  "me db authorization =
     (case db of
        None \<Rightarrow> Inl (HTTPException 500 (lit ''Database not configured''))
      | Some s \<Rightarrow>
          (case get_user_by_token db (bearer_token authorization) of
             None \<Rightarrow> Inl (HTTPException 401 (lit ''Unauthorized''))
           | Some u \<Rightarrow> Inr (user.name u, user.email u)))"

text \<open>The dictionary \<^verbatim>\<open>trip_doc\<close> of \<^verbatim>\<open>create_trip\<close>, with the id it has at a given moment.\<close>

definition trip_doc :: "(str \<Rightarrow> str) \<Rightarrow> user \<Rightarrow> TripCreateRequest \<Rightarrow> int \<Rightarrow> int \<Rightarrow> 'id \<Rightarrow> 'id trip" where
  "trip_doc ulower u req now1 now2 i =
     \<lparr>trip.oid = i,
      trip.user_id = hex (user.oid u),
      trip.title =
        or_else (TripCreateRequest.title req)
          (or_else (TripCreateRequest.destination req) (lit ''Custom Trip'')
             @ lit '' '' @ [bullet] @ lit '' '' @ str_int (TripCreateRequest.days req) @ lit '' days''),
      trip.prompt = TripCreateRequest.prompt req,
      trip.days = TripCreateRequest.days req,
      trip.itinerary =
        generate_itinerary ulower (TripCreateRequest.prompt req) (TripCreateRequest.days req)
          (TripCreateRequest.destination req) (TripCreateRequest.budget req),
      trip.destination = TripCreateRequest.destination req,
      trip.budget = TripCreateRequest.budget req,
      trip.created_at = now1,
      trip.updated_at = now2\<rparr>"

text \<open>
  \<^verbatim>\<open>insert_one\<close> appends the document under the id \<open>inserted_id\<close>; the response is
  the same document with \<^verbatim>\<open>str(inserted_id)\<close> as its id.
\<close>

definition create_trip :: "(str \<Rightarrow> str) \<Rightarrow> store option \<Rightarrow> TripCreateRequest \<Rightarrow> str option
    \<Rightarrow> ObjectId \<Rightarrow> int \<Rightarrow> int \<Rightarrow> error + ((str trip) \<times> store)" where
  "create_trip ulower db req authorization inserted_id now1 now2 =
     (case db of
        None \<Rightarrow> Inl (HTTPException 500 (lit ''Database not configured''))
      | Some s \<Rightarrow>
          (case get_user_by_token db (bearer_token authorization) of
             None \<Rightarrow> Inl (HTTPException 401 (lit ''Unauthorized''))
           | Some u \<Rightarrow>
               Inr (trip_doc ulower u req now1 now2 (hex inserted_id),
                    s\<lparr>trip_collection :=
                        trip_collection s @ [trip_doc ulower u req now1 now2 inserted_id]\<rparr>)))"



section \<open>The request boundary of \<^verbatim>\<open>POST /api/trips\<close>\<close>

text \<open>
  The route takes \<^verbatim>\<open>req: TripCreateRequest\<close>, so the body is validated against the
  field declarations of that class before the handler is called: \<^verbatim>\<open>prompt\<close> is
  required, \<^verbatim>\<open>days\<close> is \<^verbatim>\<open>Field(3, ge=1, le=30)\<close> (default 3, which is not itself
  validated, and bounds 1 and 30 on a given value), the other fields default to
  \<^verbatim>\<open>None\<close>. A body that fails validation is answered without calling the handler.
\<close>

definition validate_TripCreateRequest :: "TripCreateBody \<Rightarrow> error + TripCreateRequest" where
  "validate_TripCreateRequest body =
     (case body_prompt body of
        None \<Rightarrow> Inl RequestValidationError
      | Some p \<Rightarrow>
          (case body_days body of
             None \<Rightarrow>
               Inr \<lparr>TripCreateRequest.prompt = p, TripCreateRequest.days = 3,
                    TripCreateRequest.destination = body_destination body,
                    TripCreateRequest.budget = body_budget body,
                    TripCreateRequest.title = body_title body\<rparr>
           | Some d \<Rightarrow>
               if 1 \<le> d \<and> d \<le> 30
               then Inr \<lparr>TripCreateRequest.prompt = p, TripCreateRequest.days = d,
                         TripCreateRequest.destination = body_destination body,
                         TripCreateRequest.budget = body_budget body,
                         TripCreateRequest.title = body_title body\<rparr>
               else Inl RequestValidationError))"

text \<open>The route: the response, and the store handle after the request.\<close>

definition post_api_trips :: "(str \<Rightarrow> str) \<Rightarrow> store option \<Rightarrow> TripCreateBody \<Rightarrow> str option
    \<Rightarrow> ObjectId \<Rightarrow> int \<Rightarrow> int \<Rightarrow> (error + str trip) \<times> store option" where
  "post_api_trips ulower db body authorization inserted_id now1 now2 =
     (case validate_TripCreateRequest body of
        Inl e \<Rightarrow> (Inl e, db)
      | Inr req \<Rightarrow>
          (case create_trip ulower db req authorization inserted_id now1 now2 of
             Inl e \<Rightarrow> (Inl e, db)
           | Inr (doc, s') \<Rightarrow> (Inr doc, Some s')))"

section \<open>Token resolution as the specification words it\<close>

text \<open>
  The specification's \<open>resolve\<close>: strip a leading \<^verbatim>\<open>"Bearer "\<close> prefix if there is
  one, strip whitespace, look the token up.
\<close>

definition spec_bearer_token :: "str option \<Rightarrow> str" where
  "spec_bearer_token authorization =
     (let h = or_else authorization []
      in strip (if prefix (lit ''Bearer '') h then drop (length (lit ''Bearer '')) h else h))"

definition spec_resolve :: "store option \<Rightarrow> str option \<Rightarrow> user option" where
  "spec_resolve db authorization = get_user_by_token db (spec_bearer_token authorization)"

section \<open>Example data\<close>

definition alice_token :: str where
  "alice_token = lit ''0123456789abcdef0123456789abcdef0123456789abcdef''"

definition bob_token :: str where
  "bob_token = lit ''fedcba9876543210fedcba9876543210fedcba9876543210''"

text \<open>In the examples the hash function is reversal of the bytes, as a stand-in.\<close>

definition alice :: user where
  "alice = \<lparr>user.oid = ObjectId (lit ''65a1''), user.name = lit ''Alice'',
            user.email = lit ''a@x.com'', user.password_hash = rev (lit ''s1pw123''),
            user.salt = lit ''s1'', user.tokens = [alice_token],
            user.created_at = 1, user.updated_at = 1\<rparr>"

definition bob :: user where
  "bob = \<lparr>user.oid = ObjectId (lit ''65b2''), user.name = lit ''Bob'',
          user.email = lit ''b@x.com'', user.password_hash = rev (lit ''s2hunter2''),
          user.salt = lit ''s2'', user.tokens = [bob_token],
          user.created_at = 2, user.updated_at = 2\<rparr>"

definition long_prompt :: str where
  "long_prompt = replicate 80 97 @ lit ''bc''"

definition example_store :: store where
  "example_store = \<lparr>user_collection = [alice, bob], trip_collection = []\<rparr>"

definition example_body :: "int option \<Rightarrow> TripCreateBody" where
  "example_body d =
     \<lparr>body_prompt = Some (lit ''See the sights''), body_days = d,
      body_destination = Some (lit ''Paris''), body_budget = Some (lit ''luxury''),
      body_title = None\<rparr>"

definition example_request :: TripCreateRequest where
  "example_request =
     \<lparr>TripCreateRequest.prompt = lit ''See the sights'', TripCreateRequest.days = 3,
      TripCreateRequest.destination = Some (lit ''Paris''),
      TripCreateRequest.budget = Some (lit ''luxury''),
      TripCreateRequest.title = None\<rparr>"

definition alice_header :: "str option" where
  "alice_header = Some (lit ''Bearer '' @ alice_token)"

definition example_trip :: "user \<Rightarrow> int \<Rightarrow> string \<Rightarrow> ObjectId trip" where
  "example_trip u t i = trip_doc id u example_request t t (ObjectId (lit i))"

definition trips_store :: store where
  "trips_store =
     \<lparr>user_collection = [alice, bob],
      trip_collection = [example_trip alice 10 ''01'', example_trip bob 25 ''02'',
                         example_trip alice 20 ''03'', example_trip alice 30 ''04'']\<rparr>"

definition no_budget_request :: TripCreateRequest where
  "no_budget_request =
     \<lparr>TripCreateRequest.prompt = lit ''See the sights'', TripCreateRequest.days = 3,
      TripCreateRequest.destination = Some (lit ''Paris''),
      TripCreateRequest.budget = None,
      TripCreateRequest.title = None\<rparr>"

definition empty_fields_request :: TripCreateRequest where
  "empty_fields_request =
     \<lparr>TripCreateRequest.prompt = lit ''See the sights'', TripCreateRequest.days = 1,
      TripCreateRequest.destination = Some [],
      TripCreateRequest.budget = Some (lit ''LUXURY''),
      TripCreateRequest.title = Some []\<rparr>"

definition bob_header :: "str option" where
  "bob_header = Some (lit ''Bearer '' @ bob_token)"

definition titled_request :: TripCreateRequest where
  "titled_request = example_request\<lparr>TripCreateRequest.title := Some (lit ''Mine'')\<rparr>"

section \<open>Properties of the itinerary generator\<close>

lemma generate_loop_upto:
  "generate_loop hs p dst d stop acc =
     acc @ map (day_plan hs p dst) [d..stop - 1]"
proof (induction hs p dst d stop acc rule: generate_loop.induct)
  case (1 hs p dst d stop acc)
  show ?case
  proof (cases "d < stop")
    case True
    then have "[d..stop - 1] = d # [d + 1..stop - 1]"
      by (simp add: upto_rec1)
    with True "1" show ?thesis
      by (simp add: generate_loop.simps [of _ _ _ d])
  next
    case False
    then show ?thesis
      by (simp add: generate_loop.simps [of _ _ _ d])
  qed
qed

lemma generate_itinerary_map:
  "generate_itinerary ul p n dst b =
     map (day_plan (resolve_hints ul b) p dst) [1..n]"
  by (simp add: generate_itinerary_def generate_loop_upto)

lemma day_day_plan: "DayPlan.day (day_plan hs p dst d) = d"
  by (simp add: day_plan_def)

text \<open>
  C1. For every prompt, destination and budget and every integer \<open>days \<ge> 1\<close>, the
  generator returns exactly \<open>days\<close> entries, and the entry at 0-based position \<open>i\<close>
  has \<open>day = i + 1\<close>.
\<close>

theorem generate_itinerary_days:
  assumes "1 \<le> n"
  shows "int (length (generate_itinerary ul p n dst b)) = n
    \<and> (\<forall>i < length (generate_itinerary ul p n dst b).
          DayPlan.day (generate_itinerary ul p n dst b ! i) = int i + 1)"
  using assms by (simp add: generate_itinerary_map day_day_plan)

theorem generate_itinerary_days_witness:
  "(1::int) \<le> 3
   \<and> int (length (generate_itinerary id (lit ''See the sights'') 3 (Some (lit ''Paris'')) (Some (lit ''luxury'')))) = 3
   \<and> map DayPlan.day (generate_itinerary id (lit ''See the sights'') 3 (Some (lit ''Paris'')) (Some (lit ''luxury''))) = [1, 2, 3]"
proof -
  have h: "(1::int) \<le> 3" by simp
  have u: "[1..3::int] = [1, 2, 3]" by (simp add: upto_rec1)
  from generate_itinerary_days [OF h] show ?thesis
    by (simp add: generate_itinerary_map u day_day_plan)
qed

lemma budget_hint_simps:
  "budget_hint k = (if k = lit ''shoestring'' then Some shoestring_hints
     else if k = lit ''standard'' then Some standard_hints
     else if k = lit ''luxury'' then Some luxury_hints else None)"
  by (simp add: budget_hint_def)

lemma lower_standard: "lower ul (lit ''standard'') = lit ''standard''"
  by (simp add: lower_def is_ascii_def lit_def ascii_lower_def)

lemma keys_distinct:
  "lit ''shoestring'' \<noteq> lit ''standard''" "lit ''shoestring'' \<noteq> lit ''luxury''"
  "lit ''standard'' \<noteq> lit ''luxury''"
  "lit ''standard'' \<noteq> lit ''shoestring''" "lit ''luxury'' \<noteq> lit ''shoestring''"
  "lit ''luxury'' \<noteq> lit ''standard''"
  by (simp_all add: lit_def)

lemma resolve_hints_None: "resolve_hints ul None = standard_hints"
  by (simp add: resolve_hints_def budget_hint_simps lower_standard keys_distinct)

lemma resolve_hints_empty: "resolve_hints ul (Some []) = standard_hints"
  by (simp add: resolve_hints_def budget_hint_simps lower_standard keys_distinct)

lemma resolve_hints_Some:
  "s \<noteq> [] \<Longrightarrow> resolve_hints ul (Some s) =
     (if lower ul s = lit ''shoestring'' then shoestring_hints
      else if lower ul s = lit ''luxury'' then luxury_hints
      else standard_hints)"
  by (simp add: resolve_hints_def budget_hint_simps keys_distinct)

lemma resolve_hints_ascii:
  assumes "is_ascii s" and "map ascii_lower s = k" and "k \<noteq> []"
  shows "resolve_hints ul (Some s) =
     (if k = lit ''shoestring'' then shoestring_hints
      else if k = lit ''luxury'' then luxury_hints
      else standard_hints)"
proof -
  from assms have "s \<noteq> []" by auto
  moreover from assms have "lower ul s = k" by (simp add: lower_def)
  ultimately show ?thesis by (simp add: resolve_hints_Some)
qed

lemma resolve_hints_unrecognized:
  assumes "lower ul s \<notin> {lit ''shoestring'', lit ''standard'', lit ''luxury''}"
  shows "resolve_hints ul (Some s) = standard_hints"
proof (cases "s = []")
  case True
  then show ?thesis by (simp add: resolve_hints_empty)
next
  case False
  with assms show ?thesis by (simp add: resolve_hints_Some)
qed

lemma resolve_hints_range:
  "resolve_hints ul b \<in> {shoestring_hints, standard_hints, luxury_hints}"
  by (simp add: resolve_hints_def budget_hint_simps)

lemma key_nonempty:
  "lit ''shoestring'' \<noteq> []" "lit ''standard'' \<noteq> []" "lit ''luxury'' \<noteq> []"
  by (simp_all add: lit_def)

lemma hints_distinct: "distinct [shoestring_hints, standard_hints, luxury_hints]"
  by (simp add: shoestring_hints_def standard_hints_def luxury_hints_def lit_def)


text \<open>
  C4. Whatever the budget, the hints are one of the three fixed triples, which differ
  from each other. An absent budget gives the standard triple; a budget that equals a
  tier name up to the case of its letters gives that tier's triple; a budget whose
  lowercase form is none of the three names gives the standard triple. The plans of
  the itinerary are built from the triple so resolved.
\<close>

theorem resolve_hints_tier:
  "resolve_hints ul b \<in> {shoestring_hints, standard_hints, luxury_hints}
   \<and> distinct [shoestring_hints, standard_hints, luxury_hints]
   \<and> (b = None \<longrightarrow> resolve_hints ul b = standard_hints)
   \<and> (\<forall>s. b = Some s \<and> is_ascii s \<and> map ascii_lower s = lit ''shoestring''
          \<longrightarrow> resolve_hints ul b = shoestring_hints)
   \<and> (\<forall>s. b = Some s \<and> is_ascii s \<and> map ascii_lower s = lit ''standard''
          \<longrightarrow> resolve_hints ul b = standard_hints)
   \<and> (\<forall>s. b = Some s \<and> is_ascii s \<and> map ascii_lower s = lit ''luxury''
          \<longrightarrow> resolve_hints ul b = luxury_hints)
   \<and> (\<forall>s. b = Some s \<and> lower ul s \<notin> {lit ''shoestring'', lit ''standard'', lit ''luxury''}
          \<longrightarrow> resolve_hints ul b = standard_hints)
   \<and> generate_itinerary ul p n dst b = map (day_plan (resolve_hints ul b) p dst) [1..n]"
proof (intro conjI allI impI)
  show "resolve_hints ul b \<in> {shoestring_hints, standard_hints, luxury_hints}"
    by (rule resolve_hints_range)
  show "distinct [shoestring_hints, standard_hints, luxury_hints]"
    by (rule hints_distinct)
  show "resolve_hints ul b = standard_hints" if "b = None"
    using that by (simp add: resolve_hints_None)
  show "resolve_hints ul b = shoestring_hints"
    if "b = Some s \<and> is_ascii s \<and> map ascii_lower s = lit ''shoestring''" for s
    using that resolve_hints_ascii [of s "lit ''shoestring''" ul] by (simp add: key_nonempty)
  show "resolve_hints ul b = standard_hints"
    if "b = Some s \<and> is_ascii s \<and> map ascii_lower s = lit ''standard''" for s
    using that resolve_hints_ascii [of s "lit ''standard''" ul]
    by (simp add: key_nonempty keys_distinct)
  show "resolve_hints ul b = luxury_hints"
    if "b = Some s \<and> is_ascii s \<and> map ascii_lower s = lit ''luxury''" for s
    using that resolve_hints_ascii [of s "lit ''luxury''" ul]
    by (simp add: key_nonempty keys_distinct)
  show "resolve_hints ul b = standard_hints"
    if "b = Some s \<and> lower ul s \<notin> {lit ''shoestring'', lit ''standard'', lit ''luxury''}" for s
    using that resolve_hints_unrecognized [of ul s] by simp
  show "generate_itinerary ul p n dst b = map (day_plan (resolve_hints ul b) p dst) [1..n]"
    by (rule generate_itinerary_map)
qed

theorem resolve_hints_tier_witness:
  "is_ascii (lit ''LuXuRy'') \<and> map ascii_lower (lit ''LuXuRy'') = lit ''luxury''
   \<and> resolve_hints id (Some (lit ''LuXuRy'')) = luxury_hints
   \<and> hd luxury_hints = lit ''fine dining''"
proof -
  have a: "is_ascii (lit ''LuXuRy'')"
    by (simp add: is_ascii_def lit_def)
  have m: "map ascii_lower (lit ''LuXuRy'') = lit ''luxury''"
    by (simp add: ascii_lower_def lit_def)
  from resolve_hints_tier [of id "Some (lit ''LuXuRy'')"] a m
  have "resolve_hints id (Some (lit ''LuXuRy'')) = luxury_hints"
    by blast
  with a m show ?thesis
    by (simp add: luxury_hints_def)
qed

lemma morning_day_plan:
  "morning (day_plan hs p dst d) =
     lit ''Start with '' @ hs ! 0
       @ lit '' near the main square. Stroll through a scenic district inspired by: ''
       @ take 80 p"
  by (simp add: day_plan_def)

text \<open>
  C8. In every plan of the itinerary, \<open>morning\<close> is the fixed sentence (with the first
  hint) followed by the prompt excerpt and nothing after it. For a prompt of 81 or more
  code points the excerpt is its first 80; for a prompt of at most 80 it is the whole
  prompt.
\<close>

theorem morning_prompt_excerpt:
  assumes "x \<in> set (generate_itinerary ul p n dst b)"
  shows "(81 \<le> length p \<longrightarrow>
            morning x = lit ''Start with '' @ resolve_hints ul b ! 0
              @ lit '' near the main square. Stroll through a scenic district inspired by: ''
              @ take 80 p
            \<and> length (take 80 p) = 80 \<and> take 80 p \<noteq> p)
       \<and> (length p \<le> 80 \<longrightarrow>
            morning x = lit ''Start with '' @ resolve_hints ul b ! 0
              @ lit '' near the main square. Stroll through a scenic district inspired by: ''
              @ p)"
proof -
  from assms obtain d where "x = day_plan (resolve_hints ul b) p dst d"
    by (auto simp add: generate_itinerary_map)
  then have m: "morning x = lit ''Start with '' @ resolve_hints ul b ! 0
      @ lit '' near the main square. Stroll through a scenic district inspired by: ''
      @ take 80 p"
    by (simp add: morning_day_plan)
  have "take 80 p \<noteq> p" if "81 \<le> length p"
  proof
    assume "take 80 p = p"
    then have "length (take 80 p) = length p" by simp
    with that show False by simp
  qed
  with m show ?thesis by simp
qed

theorem morning_prompt_excerpt_witness:
  "day_plan standard_hints long_prompt None 1 \<in> set (generate_itinerary id long_prompt 1 None None)
   \<and> 81 \<le> length long_prompt
   \<and> morning (day_plan standard_hints long_prompt None 1) =
       lit ''Start with local bistros near the main square. Stroll through a scenic district inspired by: ''
         @ replicate 80 97"
proof -
  have u: "[1..1::int] = [1]" by (simp add: upto_rec1)
  have r: "resolve_hints id None = standard_hints" by (rule resolve_hints_None)
  have mem: "day_plan standard_hints long_prompt None 1
      \<in> set (generate_itinerary id long_prompt 1 None None)"
    by (simp add: generate_itinerary_map u r)
  have len: "81 \<le> length long_prompt"
    by (simp add: long_prompt_def lit_def)
  have t: "take 80 long_prompt = replicate 80 97"
    by (simp add: long_prompt_def)
  from morning_prompt_excerpt [OF mem] len
  have "morning (day_plan standard_hints long_prompt None 1) =
      lit ''Start with '' @ resolve_hints id None ! 0
        @ lit '' near the main square. Stroll through a scenic district inspired by: ''
        @ take 80 long_prompt"
    by blast
  with mem len show ?thesis
    by (simp add: r t standard_hints_def lit_def)
qed

section \<open>Properties of token resolution\<close>

lemma replace_absent:
  assumes "old \<noteq> []" and "\<not> sublist old s"
  shows "replace s old new = s"
  using assms
proof (induction s)
  case Nil
  then show ?case by simp
next
  case (Cons c cs)
  from Cons.prems have np: "\<not> prefix old (c # cs)"
    using prefix_imp_sublist by blast
  from Cons.prems have "\<not> sublist old cs"
    by (meson sublist_Cons_right)
  with Cons np show ?case by simp
qed

lemma replace_first:
  assumes "old \<noteq> []" and "\<not> sublist old (a @ butlast old)"
  shows "replace (a @ old @ t) old new = a @ new @ replace t old new"
  using assms
proof (induction a)
  case Nil
  then obtain c cs where "old @ t = c # cs"
    by (cases old) auto
  with Nil show ?case
    by (metis append_Nil append_eq_conv_conj prefixI replace.simps(2))
next
  case (Cons x a)
  have np: "\<not> prefix old ((x # a) @ old @ t)"
  proof
    assume "prefix old ((x # a) @ old @ t)"
    then have "old = take (length old) ((x # a) @ old @ t)"
      by (metis append_eq_conv_conj prefix_def)
    also have "\<dots> = take (length old) ((x # a) @ butlast old)"
      using Cons.prems(1) by (cases old rule: rev_cases) auto
    finally have "prefix old ((x # a) @ butlast old)"
      by (metis take_is_prefix)
    with Cons.prems(2) show False
      using prefix_imp_sublist by blast
  qed
  from Cons.prems(2) have "\<not> sublist old (a @ butlast old)"
    by (metis append_Cons sublist_Cons_right)
  with Cons np show ?case by simp
qed

lemma or_else_empty: "or_else a [] = (case a of None \<Rightarrow> [] | Some s \<Rightarrow> s)"
  by (cases a) auto

lemma bearer_nonempty: "lit ''Bearer '' \<noteq> []"
  by (simp add: lit_def)

lemma butlast_bearer: "butlast (lit ''Bearer '') = lit ''Bearer''"
  by (simp add: lit_def)

lemma bearer_token_absent:
  "\<not> sublist (lit ''Bearer '') h \<Longrightarrow> bearer_token (Some h) = strip h"
  by (simp add: bearer_token_def or_else_empty replace_absent bearer_nonempty)

lemma bearer_token_first:
  assumes "\<not> sublist (lit ''Bearer '') (a @ lit ''Bearer'')"
  shows "bearer_token (Some (a @ lit ''Bearer '' @ t)) = strip (a @ replace t (lit ''Bearer '') [])"
  using replace_first [of "lit ''Bearer ''" a t "[]"] assms
  by (simp add: bearer_token_def or_else_empty bearer_nonempty butlast_bearer)

lemma strip_empty: "strip [] = []"
  by (simp add: strip_def)

lemma find_None_iff': "find P xs = None \<longleftrightarrow> (\<forall>x\<in>set xs. \<not> P x)"
  by (induction xs) auto

lemma find_Some_set: "find P xs = Some x \<Longrightarrow> x \<in> set xs \<and> P x"
  by (induction xs) (auto split: if_splits)

lemma get_user_by_token_None:
  "get_user_by_token db tok = None \<longleftrightarrow>
     tok = [] \<or> db = None \<or> (\<forall>s. db = Some s \<longrightarrow> (\<forall>u\<in>set (user_collection s). tok \<notin> set (user.tokens u)))"
  by (cases db) (auto simp add: get_user_by_token_def find_None_iff')

lemma get_user_by_token_Some:
  assumes "get_user_by_token db tok = Some u"
  shows "tok \<noteq> [] \<and> (\<exists>s. db = Some s \<and> u \<in> set (user_collection s)) \<and> tok \<in> set (user.tokens u)"
  using assms
  by (cases db) (auto simp add: get_user_by_token_def split: if_splits dest: find_Some_set)

lemma isspace_iff:
  "isspace c \<longleftrightarrow> c \<in> {9..13} \<union> {28..32} \<union> {133, 160, 5760} \<union> {8192..8202}
     \<union> {8232, 8233, 8239, 8287, 12288}"
  by (auto simp add: isspace_def)

lemma strip_surrounded:
  assumes l: "list_all isspace l" and r: "list_all isspace r"
    and t: "t = [] \<or> (\<not> isspace (hd t) \<and> \<not> isspace (last t))"
  shows "strip (l @ t @ r) = t"
proof (cases "t = []")
  case True
  from l r have "\<forall>x\<in>set (l @ r). isspace x"
    by (auto simp add: list_all_iff)
  then have d: "dropWhile isspace (l @ r) = []"
    by (simp only: dropWhile_eq_Nil_conv)
  from True have "l @ t @ r = l @ r"
    by simp
  then show ?thesis
    by (simp only: strip_def d True rev.simps dropWhile.simps)
next
  case False
  with t have h: "\<not> isspace (hd t)" and e: "\<not> isspace (last t)"
    by simp_all
  from l have "dropWhile isspace (l @ t @ r) = dropWhile isspace (t @ r)"
    by (simp add: dropWhile_append2 list_all_iff)
  also from False h have "\<dots> = t @ r"
    by (cases t) simp_all
  finally have 1: "dropWhile isspace (l @ t @ r) = t @ r" .
  from r have "\<And>x. x \<in> set (rev r) \<Longrightarrow> isspace x"
    by (simp add: list_all_iff)
  then have "dropWhile isspace (rev r @ rev t) = dropWhile isspace (rev t)"
    by (rule dropWhile_append2)
  also from False e have "\<dots> = rev t"
    by (cases t rule: rev_cases) simp_all
  finally have 2: "dropWhile isspace (rev (t @ r)) = rev t"
    by simp
  show ?thesis
    by (simp only: strip_def 1 2 rev_rev_ident)
qed

lemma strip_decomposition:
  "\<exists>l r. s = l @ strip s @ r \<and> list_all isspace l \<and> list_all isspace r
     \<and> (strip s = [] \<or> (\<not> isspace (hd (strip s)) \<and> \<not> isspace (last (strip s))))"
proof -
  let ?d = "dropWhile isspace s"
  let ?e = "dropWhile isspace (rev ?d)"
  let ?l = "takeWhile isspace s"
  let ?r = "rev (takeWhile isspace (rev ?d))"
  have s: "strip s = rev ?e"
    by (simp add: strip_def)
  have "rev ?d = takeWhile isspace (rev ?d) @ ?e"
    by simp
  then have "rev (rev ?d) = rev (takeWhile isspace (rev ?d) @ ?e)"
    by (rule arg_cong)
  then have d: "?d = rev ?e @ ?r"
    by (simp only: rev_rev_ident rev_append)
  have "s = ?l @ ?d"
    by simp
  with d s have 1: "s = ?l @ strip s @ ?r"
    by simp
  have 2: "list_all isspace ?l"
    by (simp add: list_all_iff) (meson set_takeWhileD)
  have 3: "list_all isspace ?r"
    by (simp add: list_all_iff) (meson set_takeWhileD)
  have 4: "\<not> isspace (hd (strip s)) \<and> \<not> isspace (last (strip s))" if n: "strip s \<noteq> []"
  proof
    from n s have ne: "?e \<noteq> []" by simp
    then have "\<not> isspace (hd ?e)"
      by (rule hd_dropWhile)
    with ne s show "\<not> isspace (last (strip s))"
      by (simp add: last_rev)
    from ne have "rev ?d \<noteq> []" by (metis dropWhile.simps(1))
    then have dn: "?d \<noteq> []" by simp
    then have hd: "\<not> isspace (hd ?d)"
      by (rule hd_dropWhile)
    from ne have "rev ?e \<noteq> []" by simp
    then have "hd (rev ?e @ ?r) = hd (rev ?e)"
      by (rule hd_append2)
    with d have "hd ?d = hd (rev ?e)"
      by (simp only:)
    with hd s show "\<not> isspace (hd (strip s))"
      by simp
  qed
  from 1 2 3 4 show ?thesis by blast
qed

lemma bearer_token_decomposition:
  "\<exists>l r. replace (or_else auth []) (lit ''Bearer '') [] = l @ bearer_token auth @ r
     \<and> list_all isspace l \<and> list_all isspace r
     \<and> (bearer_token auth = []
          \<or> (\<not> isspace (hd (bearer_token auth)) \<and> \<not> isspace (last (bearer_token auth))))"
  unfolding bearer_token_def by (rule strip_decomposition)

lemma me_unauthorized:
  assumes "db = Some s"
  shows "me db auth = Inl (HTTPException 401 (lit ''Unauthorized''))
    \<longleftrightarrow> get_user_by_token db (bearer_token auth) = None"
  using assms by (simp add: me_def split: option.splits)

text \<open>
  C2 (as amended). The token read from the header is the header with every occurrence
  of \<^verbatim>\<open>"Bearer "\<close> removed, leading or not, and then stripped of surrounding
  whitespace: a header without the word is only stripped; the first occurrence is
  removed wherever it stands and the rest of the header is treated in the same way;
  a header that has the word only as its prefix loses exactly that prefix. An absent or
  empty header gives the empty token. The lookup returns no user exactly when the token
  is empty, the store is absent, or no user's token list holds the token; a user it
  returns is in the store and holds the token. With a store, \<open>me\<close> answers 401
  \<^verbatim>\<open>Unauthorized\<close> exactly when the lookup returns no user. Stripping is pinned
  down: a text between two runs of whitespace that is empty or begins and ends with
  a code point that is not whitespace is what \<open>strip\<close> returns; the token is such a
  text, and what was removed around it is whitespace only; the whitespace code points
  are listed.
\<close>

theorem bearer_token_resolution:
  "(\<not> sublist (lit ''Bearer '') h \<longrightarrow> bearer_token (Some h) = strip h)
   \<and> (\<not> sublist (lit ''Bearer '') (a @ lit ''Bearer'') \<longrightarrow>
        bearer_token (Some (a @ lit ''Bearer '' @ t)) = strip (a @ replace t (lit ''Bearer '') []))
   \<and> (\<not> sublist (lit ''Bearer '') t \<longrightarrow> bearer_token (Some (lit ''Bearer '' @ t)) = strip t)
   \<and> bearer_token None = [] \<and> bearer_token (Some []) = []
   \<and> (get_user_by_token db (bearer_token auth) = None \<longleftrightarrow>
         bearer_token auth = [] \<or> db = None
         \<or> (\<forall>s. db = Some s \<longrightarrow>
               (\<forall>u\<in>set (user_collection s). bearer_token auth \<notin> set (user.tokens u))))
   \<and> (\<forall>u. get_user_by_token db (bearer_token auth) = Some u \<longrightarrow>
         (\<exists>s. db = Some s \<and> u \<in> set (user_collection s))
         \<and> bearer_token auth \<in> set (user.tokens u))
   \<and> (\<forall>s. db = Some s \<longrightarrow>
         (me db auth = Inl (HTTPException 401 (lit ''Unauthorized''))
            \<longleftrightarrow> get_user_by_token db (bearer_token auth) = None))
   \<and> (\<forall>l m r. list_all isspace l \<and> list_all isspace r
          \<and> (m = [] \<or> (\<not> isspace (hd m) \<and> \<not> isspace (last m))) \<longrightarrow>
         strip (l @ m @ r) = m)
   \<and> (\<exists>l r. replace (or_else auth []) (lit ''Bearer '') [] = l @ bearer_token auth @ r
         \<and> list_all isspace l \<and> list_all isspace r
         \<and> (bearer_token auth = []
              \<or> (\<not> isspace (hd (bearer_token auth)) \<and> \<not> isspace (last (bearer_token auth)))))
   \<and> (\<forall>c. isspace c \<longleftrightarrow>
         c \<in> {9..13} \<union> {28..32} \<union> {133, 160, 5760} \<union> {8192..8202}
           \<union> {8232, 8233, 8239, 8287, 12288})"
proof (intro conjI allI impI)
  show "bearer_token (Some h) = strip h" if "\<not> sublist (lit ''Bearer '') h"
    using that by (rule bearer_token_absent)
  show "bearer_token (Some (a @ lit ''Bearer '' @ t)) = strip (a @ replace t (lit ''Bearer '') [])"
    if "\<not> sublist (lit ''Bearer '') (a @ lit ''Bearer'')"
    using that by (rule bearer_token_first)
  show "bearer_token (Some (lit ''Bearer '' @ t)) = strip t" if n: "\<not> sublist (lit ''Bearer '') t"
  proof -
    have "\<not> sublist (lit ''Bearer '') ([] @ lit ''Bearer'')"
      by (auto simp add: lit_def dest: sublist_length_le)
    from bearer_token_first [OF this, of t] n show ?thesis
      by (simp add: replace_absent bearer_nonempty)
  qed
  show "bearer_token None = []"
    by (simp add: bearer_token_def strip_empty)
  show "bearer_token (Some []) = []"
    by (simp add: bearer_token_def strip_empty)
  show "get_user_by_token db (bearer_token auth) = None \<longleftrightarrow>
         bearer_token auth = [] \<or> db = None
         \<or> (\<forall>s. db = Some s \<longrightarrow>
               (\<forall>u\<in>set (user_collection s). bearer_token auth \<notin> set (user.tokens u)))"
    by (rule get_user_by_token_None)
  show "\<exists>s. db = Some s \<and> u \<in> set (user_collection s)"
    if "get_user_by_token db (bearer_token auth) = Some u" for u
    using get_user_by_token_Some [OF that] by blast
  show "bearer_token auth \<in> set (user.tokens u)"
    if "get_user_by_token db (bearer_token auth) = Some u" for u
    using get_user_by_token_Some [OF that] by blast
  show "me db auth = Inl (HTTPException 401 (lit ''Unauthorized''))
      \<longleftrightarrow> get_user_by_token db (bearer_token auth) = None"
    if "db = Some s" for s
    using that by (rule me_unauthorized)
  show "strip (l @ m @ r) = m"
    if "list_all isspace l \<and> list_all isspace r
          \<and> (m = [] \<or> (\<not> isspace (hd m) \<and> \<not> isspace (last m)))" for l m r
    using that strip_surrounded [of l r m] by blast
  show "\<exists>l r. replace (or_else auth []) (lit ''Bearer '') [] = l @ bearer_token auth @ r
         \<and> list_all isspace l \<and> list_all isspace r
         \<and> (bearer_token auth = []
              \<or> (\<not> isspace (hd (bearer_token auth)) \<and> \<not> isspace (last (bearer_token auth))))"
    by (rule bearer_token_decomposition)
  show "isspace c \<longleftrightarrow>
         c \<in> {9..13} \<union> {28..32} \<union> {133, 160, 5760} \<union> {8192..8202}
           \<union> {8232, 8233, 8239, 8287, 12288}" for c
    by (rule isspace_iff)
qed


lemma bearer_token_doubled:
  "bearer_token (Some (lit ''Bearer Bearer '' @ alice_token)) = alice_token"
  by (simp add: bearer_token_def alice_token_def lit_def strip_def isspace_def)

lemma spec_bearer_token_doubled:
  "spec_bearer_token (Some (lit ''Bearer Bearer '' @ alice_token)) = lit ''Bearer '' @ alice_token"
  by (simp add: spec_bearer_token_def alice_token_def lit_def strip_def isspace_def)

lemma get_alice: "get_user_by_token (Some example_store) alice_token = Some alice"
  by (simp add: get_user_by_token_def example_store_def alice_def alice_token_def lit_def)

text \<open>
  C2 as stated fails on the header \<^verbatim>\<open>"Bearer Bearer <token>"\<close>: removing only the
  leading prefix leaves \<^verbatim>\<open>"Bearer <token>"\<close>, which no user holds, but the code removes
  both occurrences and finds the user.
\<close>

theorem bearer_token_leading_only_counterexample:
  "get_user_by_token (Some example_store)
     (bearer_token (Some (lit ''Bearer Bearer '' @ alice_token))) = Some alice
   \<and> spec_resolve (Some example_store) (Some (lit ''Bearer Bearer '' @ alice_token)) = None"
  unfolding spec_resolve_def bearer_token_doubled spec_bearer_token_doubled
  by (simp add: get_user_by_token_def example_store_def alice_def bob_def alice_token_def
      bob_token_def lit_def)

lemma no_bearer_in_alice_token: "\<not> sublist (lit ''Bearer '') alice_token"
proof
  assume "sublist (lit ''Bearer '') alice_token"
  then have "set (lit ''Bearer '') \<subseteq> set alice_token"
    by (rule set_mono_sublist)
  then show False
    by (simp add: lit_def alice_token_def)
qed

lemma no_bearer_in_padded_token: "\<not> sublist (lit ''Bearer '') (alice_token @ [32, 9])"
proof
  assume "sublist (lit ''Bearer '') (alice_token @ [32, 9])"
  then have "set (lit ''Bearer '') \<subseteq> set (alice_token @ [32, 9])"
    by (rule set_mono_sublist)
  then show False
    by (simp add: lit_def alice_token_def)
qed

lemma no_bearer_before: "\<not> sublist (lit ''Bearer '') ([32] @ lit ''Bearer'')"
proof
  assume a: "sublist (lit ''Bearer '') ([32] @ lit ''Bearer'')"
  then obtain ps ss where e: "[32] @ lit ''Bearer'' = ps @ lit ''Bearer '' @ ss"
    by (auto simp add: sublist_def)
  then have "length ([32] @ lit ''Bearer'') = length (ps @ lit ''Bearer '' @ ss)"
    by (rule arg_cong)
  then have "ps = []" and "ss = []"
    by (simp_all add: lit_def)
  with e show False
    by (simp add: lit_def)
qed

lemma alice_token_ends: "\<not> isspace (hd alice_token) \<and> \<not> isspace (last alice_token)"
  by (simp add: alice_token_def lit_def isspace_def)

theorem bearer_token_resolution_witness:
  "\<not> sublist (lit ''Bearer '') alice_token
   \<and> bearer_token (Some (lit ''Bearer '' @ alice_token)) = strip alice_token
   \<and> list_all isspace [32] \<and> list_all isspace [32, 9]
   \<and> \<not> isspace (hd alice_token) \<and> \<not> isspace (last alice_token)
   \<and> \<not> sublist (lit ''Bearer '') ([32] @ lit ''Bearer'')
   \<and> bearer_token (Some ([32] @ lit ''Bearer '' @ alice_token @ [32, 9])) = alice_token
   \<and> get_user_by_token (Some example_store)
       (bearer_token (Some ([32] @ lit ''Bearer '' @ alice_token @ [32, 9]))) = Some alice
   \<and> alice \<in> set (user_collection example_store)
   \<and> bearer_token (Some ([32] @ lit ''Bearer '' @ alice_token @ [32, 9])) \<in> set (user.tokens alice)"
proof -
  note r = bearer_token_resolution [of alice_token "[32]" "alice_token @ [32, 9]"
      "Some example_store" "Some ([32] @ lit ''Bearer '' @ alice_token @ [32, 9])"]
  note q = bearer_token_resolution [of alice_token "[]" alice_token]
  from q no_bearer_in_alice_token
  have p: "bearer_token (Some (lit ''Bearer '' @ alice_token)) = strip alice_token"
    by blast
  from r have w: "isspace 32" and w': "isspace 9"
    by simp_all
  then have ws: "list_all isspace [32]" "list_all isspace [32, 9]"
    by simp_all
  from r no_bearer_before
  have "bearer_token (Some ([32] @ lit ''Bearer '' @ alice_token @ [32, 9]))
      = strip ([32] @ replace (alice_token @ [32, 9]) (lit ''Bearer '') [])"
    by blast
  also have "replace (alice_token @ [32, 9]) (lit ''Bearer '') [] = alice_token @ [32, 9]"
    using bearer_nonempty no_bearer_in_padded_token by (rule replace_absent)
  also from r ws alice_token_ends have "strip ([32] @ alice_token @ [32, 9]) = alice_token"
    by blast
  finally have t: "bearer_token (Some ([32] @ lit ''Bearer '' @ alice_token @ [32, 9]))
      = alice_token" .
  have g: "get_user_by_token (Some example_store)
      (bearer_token (Some ([32] @ lit ''Bearer '' @ alice_token @ [32, 9]))) = Some alice"
    by (simp only: t get_alice)
  from r g have m: "alice \<in> set (user_collection example_store)
      \<and> bearer_token (Some ([32] @ lit ''Bearer '' @ alice_token @ [32, 9]))
          \<in> set (user.tokens alice)"
    by blast
  from no_bearer_in_alice_token p ws alice_token_ends no_bearer_before t g m
  show ?thesis by blast
qed

section \<open>Properties of the routes\<close>

lemma get_user_by_email_None:
  "get_user_by_email db e = None \<longleftrightarrow>
     db = None \<or> (\<forall>s. db = Some s \<longrightarrow> (\<forall>u\<in>set (user_collection s). user.email u \<noteq> e))"
  by (cases db) (auto simp add: get_user_by_email_def find_None_iff')

lemma hash_password_encodable:
  assumes "\<not> list_ex is_surrogate (slt @ pw)"
  shows "hash_password H pw slt = Inr (H (concat (map utf8 (slt @ pw))))"
  using assms by (simp add: hash_password_def encode_def)

lemma hash_password_surrogate:
  assumes "list_ex is_surrogate (slt @ pw)"
  shows "hash_password H pw slt = Inl UnicodeEncodeError"
  using assms by (simp add: hash_password_def encode_def)

lemma login_Inr_iff:
  "(\<exists>r. login H db req fresh now = Inr r) \<longleftrightarrow>
     (\<exists>u. get_user_by_email db (LoginRequest.email req) = Some u
        \<and> hash_password H (LoginRequest.password req) (user.salt u) = Inr (user.password_hash u))"
  by (cases db) (auto simp add: login_def get_user_by_email_def split: option.splits sum.splits)

lemma login_no_user:
  assumes "db = Some s" and "get_user_by_email db (LoginRequest.email req) = None"
  shows "login H db req fresh now = Inl (HTTPException 401 (lit ''Invalid credentials''))"
  using assms by (simp add: login_def)

lemma login_wrong_password:
  assumes "db = Some s" and "get_user_by_email db (LoginRequest.email req) = Some u"
    and "hash_password H (LoginRequest.password req) (user.salt u) = Inr h"
    and "h \<noteq> user.password_hash u"
  shows "login H db req fresh now = Inl (HTTPException 401 (lit ''Invalid credentials''))"
  using assms by (simp add: login_def)

lemma login_surrogate:
  assumes "db = Some s" and "get_user_by_email db (LoginRequest.email req) = Some u"
    and "list_ex is_surrogate (user.salt u @ LoginRequest.password req)"
  shows "login H db req fresh now = Inl UnicodeEncodeError"
  using assms by (simp add: login_def hash_password_surrogate)

text \<open>
  What holds of \<open>login\<close> for every hash function: it returns a response exactly when
  the hash of the found user's salt and the password is computed and equals the stored
  hash; an unknown email and a computed hash that differs both give
  \<^verbatim>\<open>HTTPException(401, "Invalid credentials")\<close>; a password with a surrogate, for a user
  that exists, gives \<^verbatim>\<open>UnicodeEncodeError\<close> instead.
\<close>

lemma login_outcomes:
  "((\<exists>r. login H db req fresh now = Inr r) \<longleftrightarrow>
      (\<exists>u. get_user_by_email db (LoginRequest.email req) = Some u
         \<and> hash_password H (LoginRequest.password req) (user.salt u)
             = Inr (user.password_hash u)))
   \<and> (\<forall>s. db = Some s \<and> (\<forall>u\<in>set (user_collection s). user.email u \<noteq> LoginRequest.email req) \<longrightarrow>
        login H db req fresh now = Inl (HTTPException 401 (lit ''Invalid credentials'')))
   \<and> (\<forall>s u h. db = Some s \<and> get_user_by_email db (LoginRequest.email req) = Some u
          \<and> hash_password H (LoginRequest.password req) (user.salt u) = Inr h
          \<and> h \<noteq> user.password_hash u \<longrightarrow>
        login H db req fresh now = Inl (HTTPException 401 (lit ''Invalid credentials'')))
   \<and> (\<forall>s u. db = Some s \<and> get_user_by_email db (LoginRequest.email req) = Some u
          \<and> list_ex is_surrogate (user.salt u @ LoginRequest.password req) \<longrightarrow>
        login H db req fresh now = Inl UnicodeEncodeError)"
proof (intro conjI allI impI)
  show "(\<exists>r. login H db req fresh now = Inr r) \<longleftrightarrow>
      (\<exists>u. get_user_by_email db (LoginRequest.email req) = Some u
         \<and> hash_password H (LoginRequest.password req) (user.salt u)
             = Inr (user.password_hash u))"
    by (rule login_Inr_iff)
  show "login H db req fresh now = Inl (HTTPException 401 (lit ''Invalid credentials''))"
    if "db = Some s \<and> (\<forall>u\<in>set (user_collection s). user.email u \<noteq> LoginRequest.email req)" for s
  proof -
    from that have "get_user_by_email db (LoginRequest.email req) = None"
      by (simp add: get_user_by_email_None)
    with that show ?thesis by (simp add: login_no_user)
  qed
  show "login H db req fresh now = Inl (HTTPException 401 (lit ''Invalid credentials''))"
    if "db = Some s \<and> get_user_by_email db (LoginRequest.email req) = Some u
          \<and> hash_password H (LoginRequest.password req) (user.salt u) = Inr h
          \<and> h \<noteq> user.password_hash u" for s u h
    using that login_wrong_password [of db s req u H h fresh now] by blast
  show "login H db req fresh now = Inl UnicodeEncodeError"
    if "db = Some s \<and> get_user_by_email db (LoginRequest.email req) = Some u
          \<and> list_ex is_surrogate (user.salt u @ LoginRequest.password req)" for s u
    using that login_surrogate [of db s req u H fresh now] by blast
qed

lemma example_get_alice_by_email:
  "get_user_by_email (Some example_store) (lit ''a@x.com'') = Some alice"
  by (simp add: get_user_by_email_def example_store_def alice_def lit_def)

lemma example_no_carol:
  "get_user_by_email (Some example_store) (lit ''c@x.com'') = None"
  by (simp add: get_user_by_email_def example_store_def alice_def bob_def lit_def)

lemma example_login_ok:
  "\<exists>r. login rev (Some example_store)
          \<lparr>LoginRequest.email = lit ''a@x.com'', LoginRequest.password = lit ''pw123''\<rparr>
          fresh now = Inr r"
proof -
  have "hash_password rev (lit ''pw123'') (user.salt alice) = Inr (user.password_hash alice)"
    by (simp add: hash_password_def encode_def is_surrogate_def utf8_def alice_def lit_def)
  with example_get_alice_by_email show ?thesis
    unfolding login_Inr_iff by simp
qed

lemma example_login_wrong:
  "login rev (Some example_store)
          \<lparr>LoginRequest.email = lit ''a@x.com'', LoginRequest.password = lit ''wrong''\<rparr>
          fresh now = Inl (HTTPException 401 (lit ''Invalid credentials''))"
proof -
  have "hash_password rev (lit ''wrong'') (user.salt alice) = Inr (rev (lit ''s1wrong''))"
    and "rev (lit ''s1wrong'') \<noteq> user.password_hash alice"
    by (simp_all add: hash_password_def encode_def is_surrogate_def utf8_def alice_def lit_def)
  with example_get_alice_by_email show ?thesis
    by (simp add: login_wrong_password)
qed

text \<open>
  C3. The claim fails on the code for a password that holds a surrogate, such as the
  one-character password U+D800. For the registered email \<^verbatim>\<open>a@x.com\<close> the handler
  leaves with \<^verbatim>\<open>UnicodeEncodeError\<close>, raised by \<^verbatim>\<open>encode\<close> in \<^verbatim>\<open>_hash_password\<close>; for
  the unregistered email \<^verbatim>\<open>c@x.com\<close> the same password gives
  \<^verbatim>\<open>HTTPException(401, "Invalid credentials")\<close>. The two failures differ, whatever
  the hash function.
\<close>

theorem login_surrogate_password:
  "login H (Some example_store)
       \<lparr>LoginRequest.email = lit ''a@x.com'', LoginRequest.password = [55296]\<rparr> fresh now
     = Inl UnicodeEncodeError
   \<and> login H (Some example_store)
       \<lparr>LoginRequest.email = lit ''c@x.com'', LoginRequest.password = [55296]\<rparr> fresh now
     = Inl (HTTPException 401 (lit ''Invalid credentials''))"
proof
  have "list_ex is_surrogate (user.salt alice @ [55296])"
    by (simp add: is_surrogate_def)
  with example_get_alice_by_email
  show "login H (Some example_store)
       \<lparr>LoginRequest.email = lit ''a@x.com'', LoginRequest.password = [55296]\<rparr> fresh now
     = Inl UnicodeEncodeError"
    by (simp add: login_surrogate)
  from example_no_carol
  show "login H (Some example_store)
       \<lparr>LoginRequest.email = lit ''c@x.com'', LoginRequest.password = [55296]\<rparr> fresh now
     = Inl (HTTPException 401 (lit ''Invalid credentials''))"
    by (simp add: login_no_user)
qed

lemma validate_days:
  "validate_TripCreateRequest body = Inr req \<Longrightarrow>
     1 \<le> TripCreateRequest.days req \<and> TripCreateRequest.days req \<le> 30
     \<and> TripCreateRequest.days req = (case body_days body of None \<Rightarrow> 3 | Some d \<Rightarrow> d)"
  by (auto simp add: validate_TripCreateRequest_def split: option.splits if_splits)

lemma validate_out_of_range:
  "body_days body = Some d \<Longrightarrow> d < 1 \<or> 30 < d \<Longrightarrow>
     validate_TripCreateRequest body = Inl RequestValidationError"
  by (auto simp add: validate_TripCreateRequest_def split: option.splits)

lemma validate_default:
  "body_prompt body = Some q \<Longrightarrow> body_days body = None \<Longrightarrow>
     \<exists>req. validate_TripCreateRequest body = Inr req \<and> TripCreateRequest.days req = 3"
  by (simp add: validate_TripCreateRequest_def)

lemma create_trip_Inr:
  assumes "create_trip ul db req auth i t1 t2 = Inr (doc, s')"
  shows "\<exists>s u. db = Some s \<and> get_user_by_token db (bearer_token auth) = Some u
     \<and> doc = trip_doc ul u req t1 t2 (hex i)
     \<and> s' = s\<lparr>trip_collection := trip_collection s @ [trip_doc ul u req t1 t2 i]\<rparr>"
  using assms by (auto simp add: create_trip_def split: option.splits)

text \<open>
  C6. A body whose \<open>days\<close> is below 1 or above 30 is answered with the validation
  error and the store is left as it was. A body without \<open>days\<close> is validated to a
  request with \<open>days = 3\<close>, which is what the handler receives. Every trip that the
  route creates has \<open>1 \<le> days \<le> 30\<close>, the days of the body (or 3), in the response
  and in the stored document, and an itinerary of that length.
\<close>

theorem days_validated_at_boundary:
  "(\<forall>d. body_days body = Some d \<and> (d < 1 \<or> 30 < d) \<longrightarrow>
       post_api_trips ul db body auth i t1 t2 = (Inl RequestValidationError, db))
   \<and> (\<forall>q. body_prompt body = Some q \<and> body_days body = None \<longrightarrow>
       (\<exists>req. validate_TripCreateRequest body = Inr req \<and> TripCreateRequest.days req = 3
          \<and> post_api_trips ul db body auth i t1 t2 =
              (case create_trip ul db req auth i t1 t2 of
                 Inl e \<Rightarrow> (Inl e, db) | Inr (doc, s') \<Rightarrow> (Inr doc, Some s'))))
   \<and> (\<forall>doc s'. post_api_trips ul db body auth i t1 t2 = (Inr doc, Some s') \<longrightarrow>
       1 \<le> trip.days doc \<and> trip.days doc \<le> 30
       \<and> trip.days doc = (case body_days body of None \<Rightarrow> 3 | Some d \<Rightarrow> d)
       \<and> trip.days (last (trip_collection s')) = trip.days doc
       \<and> int (length (trip.itinerary doc)) = trip.days doc)"
proof (intro conjI allI impI)
  show "post_api_trips ul db body auth i t1 t2 = (Inl RequestValidationError, db)"
    if "body_days body = Some d \<and> (d < 1 \<or> 30 < d)" for d
    using that validate_out_of_range [of body d] by (auto simp add: post_api_trips_def)
  show "\<exists>req. validate_TripCreateRequest body = Inr req \<and> TripCreateRequest.days req = 3
          \<and> post_api_trips ul db body auth i t1 t2 =
              (case create_trip ul db req auth i t1 t2 of
                 Inl e \<Rightarrow> (Inl e, db) | Inr (doc, s') \<Rightarrow> (Inr doc, Some s'))"
    if "body_prompt body = Some q \<and> body_days body = None" for q
    using that validate_default [of body q] by (auto simp add: post_api_trips_def)
  fix doc s'
  assume a: "post_api_trips ul db body auth i t1 t2 = (Inr doc, Some s')"
  then obtain req where v: "validate_TripCreateRequest body = Inr req"
    and c: "create_trip ul db req auth i t1 t2 = Inr (doc, s')"
    by (auto simp add: post_api_trips_def split: sum.splits)
  from create_trip_Inr [OF c] obtain s u where d: "doc = trip_doc ul u req t1 t2 (hex i)"
    and s: "s' = s\<lparr>trip_collection := trip_collection s @ [trip_doc ul u req t1 t2 i]\<rparr>"
    by blast
  from d have dd: "trip.days doc = TripCreateRequest.days req"
    by (simp add: trip_doc_def)
  from validate_days [OF v] dd show "1 \<le> trip.days doc" "trip.days doc \<le> 30"
    "trip.days doc = (case body_days body of None \<Rightarrow> 3 | Some d \<Rightarrow> d)"
    by simp_all
  from s dd show "trip.days (last (trip_collection s')) = trip.days doc"
    by (simp add: trip_doc_def)
  from validate_days [OF v] d show "int (length (trip.itinerary doc)) = trip.days doc"
    by (simp add: trip_doc_def generate_itinerary_map)
qed

lemma bearer_token_alice_header: "bearer_token alice_header = alice_token"
  by (simp add: alice_header_def bearer_token_absent bearer_token_def alice_token_def lit_def
      strip_def isspace_def)

lemma example_create_trip:
  "create_trip ul (Some example_store) req alice_header i t1 t2 =
     Inr (trip_doc ul alice req t1 t2 (hex i),
          example_store\<lparr>trip_collection :=
             trip_collection example_store @ [trip_doc ul alice req t1 t2 i]\<rparr>)"
  by (simp add: create_trip_def bearer_token_alice_header get_alice)

theorem days_validated_at_boundary_witness:
  "post_api_trips id (Some example_store) (example_body (Some 0)) alice_header
       (ObjectId (lit ''77'')) 10 11 = (Inl RequestValidationError, Some example_store)
   \<and> post_api_trips id (Some example_store) (example_body (Some 31)) alice_header
       (ObjectId (lit ''77'')) 10 11 = (Inl RequestValidationError, Some example_store)
   \<and> (\<exists>doc s'. post_api_trips id (Some example_store) (example_body None) alice_header
       (ObjectId (lit ''77'')) 10 11 = (Inr doc, Some s') \<and> trip.days doc = 3
       \<and> length (trip.itinerary doc) = 3)"
proof -
  from days_validated_at_boundary [of "example_body (Some 0)" id "Some example_store"
      alice_header "ObjectId (lit ''77'')" 10 11]
  have 1: "post_api_trips id (Some example_store) (example_body (Some 0)) alice_header
       (ObjectId (lit ''77'')) 10 11 = (Inl RequestValidationError, Some example_store)"
    by (simp add: example_body_def)
  from days_validated_at_boundary [of "example_body (Some 31)" id "Some example_store"
      alice_header "ObjectId (lit ''77'')" 10 11]
  have 2: "post_api_trips id (Some example_store) (example_body (Some 31)) alice_header
       (ObjectId (lit ''77'')) 10 11 = (Inl RequestValidationError, Some example_store)"
    by (simp add: example_body_def)
  have v: "validate_TripCreateRequest (example_body None) = Inr example_request"
    by (simp add: validate_TripCreateRequest_def example_body_def example_request_def)
  have p: "post_api_trips id (Some example_store) (example_body None) alice_header
       (ObjectId (lit ''77'')) 10 11 =
       (Inr (trip_doc id alice example_request 10 11 (lit ''77'')),
        Some (example_store\<lparr>trip_collection := trip_collection example_store
           @ [trip_doc id alice example_request 10 11 (ObjectId (lit ''77''))]\<rparr>))"
    by (simp add: post_api_trips_def v example_create_trip)
  from days_validated_at_boundary [of "example_body None" id "Some example_store"
      alice_header "ObjectId (lit ''77'')" 10 11] p
  have "trip.days (trip_doc id alice example_request 10 11 (lit ''77'')) = 3
      \<and> int (length (trip.itinerary (trip_doc id alice example_request 10 11 (lit ''77'')))) = 3"
    by (simp add: example_body_def)
  with p have 3: "\<exists>doc s'. post_api_trips id (Some example_store) (example_body None)
       alice_header (ObjectId (lit ''77'')) 10 11 = (Inr doc, Some s') \<and> trip.days doc = 3
       \<and> length (trip.itinerary doc) = 3"
    by simp
  from 1 2 3 show ?thesis by blast
qed












section \<open>Properties of trip creation\<close>

lemma trip_doc_fields:
  "trip.budget (trip_doc ul u req t1 t2 i) = TripCreateRequest.budget req"
  "trip.destination (trip_doc ul u req t1 t2 i) = TripCreateRequest.destination req"
  "trip.days (trip_doc ul u req t1 t2 i) = TripCreateRequest.days req"
  "trip.prompt (trip_doc ul u req t1 t2 i) = TripCreateRequest.prompt req"
  "trip.user_id (trip_doc ul u req t1 t2 i) = hex (user.oid u)"
  "trip.itinerary (trip_doc ul u req t1 t2 i) =
     generate_itinerary ul (TripCreateRequest.prompt req) (TripCreateRequest.days req)
       (TripCreateRequest.destination req) (TripCreateRequest.budget req)"
  "trip.title (trip_doc ul u req t1 t2 i) =
     or_else (TripCreateRequest.title req)
       (or_else (TripCreateRequest.destination req) (lit ''Custom Trip'')
          @ lit '' '' @ [bullet] @ lit '' '' @ str_int (TripCreateRequest.days req) @ lit '' days'')"
  by (simp_all add: trip_doc_def)

text \<open>
  C9 as stated fails on a request without a budget: the document that \<open>create_trip\<close>
  stores has no budget at all, not the string \<^verbatim>\<open>standard\<close>.
\<close>

theorem persisted_budget_counterexample:
  "create_trip id (Some example_store) no_budget_request alice_header (ObjectId (lit ''77'')) 10 11
     = Inr (trip_doc id alice no_budget_request 10 11 (lit ''77''),
            example_store\<lparr>trip_collection :=
              [trip_doc id alice no_budget_request 10 11 (ObjectId (lit ''77''))]\<rparr>)
   \<and> trip.budget (trip_doc id alice no_budget_request 10 11 (ObjectId (lit ''77'')))
       \<notin> {Some (lit ''shoestring''), Some (lit ''standard''), Some (lit ''luxury'')}"
  by (simp add: example_create_trip trip_doc_fields)
    (simp add: example_store_def no_budget_request_def)

text \<open>
  C9 (as amended). The budget of the created trip, in the response and in the stored
  document, is the budget of the request as it was given. The tier is resolved only for
  the text of the itinerary, whose plans use one of the three fixed triples.
\<close>

theorem persisted_budget_verbatim:
  assumes "create_trip ul db req auth i t1 t2 = Inr (doc, s')"
  shows "trip.budget doc = TripCreateRequest.budget req
    \<and> trip.budget (last (trip_collection s')) = TripCreateRequest.budget req
    \<and> trip.itinerary doc =
        map (day_plan (resolve_hints ul (TripCreateRequest.budget req))
               (TripCreateRequest.prompt req) (TripCreateRequest.destination req))
          [1..TripCreateRequest.days req]
    \<and> resolve_hints ul (TripCreateRequest.budget req)
        \<in> {shoestring_hints, standard_hints, luxury_hints}"
proof -
  from create_trip_Inr [OF assms] obtain s u where d: "doc = trip_doc ul u req t1 t2 (hex i)"
    and s: "s' = s\<lparr>trip_collection := trip_collection s @ [trip_doc ul u req t1 t2 i]\<rparr>"
    by blast
  from d s resolve_hints_range [of ul "TripCreateRequest.budget req"] show ?thesis
    by (simp add: trip_doc_fields generate_itinerary_map)
qed

theorem persisted_budget_verbatim_witness:
  "create_trip id (Some example_store) empty_fields_request alice_header (ObjectId (lit ''77'')) 10 11
     = Inr (trip_doc id alice empty_fields_request 10 11 (lit ''77''),
            example_store\<lparr>trip_collection := trip_collection example_store
              @ [trip_doc id alice empty_fields_request 10 11 (ObjectId (lit ''77''))]\<rparr>)
   \<and> trip.budget (trip_doc id alice empty_fields_request 10 11 (lit ''77'')) = Some (lit ''LUXURY'')
   \<and> resolve_hints id (Some (lit ''LUXURY'')) = luxury_hints"
proof -
  have c: "create_trip id (Some example_store) empty_fields_request alice_header
      (ObjectId (lit ''77'')) 10 11
     = Inr (trip_doc id alice empty_fields_request 10 11 (lit ''77''),
            example_store\<lparr>trip_collection := trip_collection example_store
              @ [trip_doc id alice empty_fields_request 10 11 (ObjectId (lit ''77''))]\<rparr>)"
    by (simp add: example_create_trip)
  from persisted_budget_verbatim [OF c]
  have b: "trip.budget (trip_doc id alice empty_fields_request 10 11 (lit ''77'')) = Some (lit ''LUXURY'')"
    by (simp add: empty_fields_request_def)
  have r: "resolve_hints id (Some (lit ''LUXURY'')) = luxury_hints"
    by (simp add: resolve_hints_def budget_hint_simps lower_def is_ascii_def lit_def
        ascii_lower_def)
  from c b r show ?thesis by blast
qed

lemma theme_day_plan:
  "theme (day_plan hs p dst d) =
     lit ''Day '' @ str_int d @ lit '' '' @ [bullet] @ lit '' '' @ or_else dst (lit ''Explorer'')"
  by (simp add: day_plan_def)

lemma day_plan_empty_destination: "day_plan hs p (Some []) d = day_plan hs p None d"
  by (simp add: day_plan_def)

lemma generate_itinerary_empty_destination:
  "generate_itinerary ul p n (Some []) b = generate_itinerary ul p n None b"
  by (simp add: generate_itinerary_map day_plan_empty_destination)

lemma derived_title_nonempty:
  "d @ lit '' '' @ [bullet] @ lit '' '' @ str_int n @ lit '' days'' \<noteq> []"
  by (simp add: lit_def)

lemma trip_doc_empty_title:
  assumes "TripCreateRequest.title req = Some []"
  shows "trip_doc ul u (req\<lparr>TripCreateRequest.title := None\<rparr>) t1 t2 i = trip_doc ul u req t1 t2 i"
  using assms by (simp add: trip_doc_def)

lemma create_trip_empty_title:
  assumes "TripCreateRequest.title req = Some []"
  shows "create_trip ul db (req\<lparr>TripCreateRequest.title := None\<rparr>) auth i t1 t2
    = create_trip ul db req auth i t1 t2"
  using assms by (simp add: create_trip_def trip_doc_empty_title split: option.splits)

text \<open>
  C10. An empty destination gives the same itinerary as an absent one, and every theme
  then ends with the placeholder \<^verbatim>\<open>Explorer\<close>; this holds for the generator and for
  the itinerary of a created trip. An empty title gives the derived title (destination
  or \<^verbatim>\<open>Custom Trip\<close>, then the day count), which is not empty, in the response and in the
  stored document, and the whole result is that of the same request without a title.
\<close>

theorem empty_destination_and_title:
  "generate_itinerary ul p n (Some []) b = generate_itinerary ul p n None b
   \<and> (\<forall>x\<in>set (generate_itinerary ul p n (Some []) b).
        theme x = lit ''Day '' @ str_int (DayPlan.day x) @ lit '' '' @ [bullet] @ lit '' Explorer'')
   \<and> (\<forall>doc s'. create_trip ul db req auth i t1 t2 = Inr (doc, s')
          \<and> TripCreateRequest.destination req = Some [] \<longrightarrow>
        trip.itinerary doc =
          generate_itinerary ul (TripCreateRequest.prompt req) (TripCreateRequest.days req)
            None (TripCreateRequest.budget req)
        \<and> (\<forall>x\<in>set (trip.itinerary doc).
             theme x = lit ''Day '' @ str_int (DayPlan.day x) @ lit '' '' @ [bullet] @ lit '' Explorer''))
   \<and> (\<forall>doc s'. create_trip ul db req auth i t1 t2 = Inr (doc, s')
          \<and> TripCreateRequest.title req = Some [] \<longrightarrow>
        trip.title doc =
          or_else (TripCreateRequest.destination req) (lit ''Custom Trip'')
            @ lit '' '' @ [bullet] @ lit '' '' @ str_int (TripCreateRequest.days req) @ lit '' days''
        \<and> trip.title doc \<noteq> []
        \<and> trip.title (last (trip_collection s')) = trip.title doc
        \<and> create_trip ul db (req\<lparr>TripCreateRequest.title := None\<rparr>) auth i t1 t2 = Inr (doc, s'))"
proof (intro conjI allI impI ballI)
  show e: "generate_itinerary ul p n (Some []) b = generate_itinerary ul p n None b" for p n b
    by (rule generate_itinerary_empty_destination)
  show t: "theme x = lit ''Day '' @ str_int (DayPlan.day x) @ lit '' '' @ [bullet] @ lit '' Explorer''"
    if "x \<in> set (generate_itinerary ul p n (Some []) b)" for x p n b
    using that by (auto simp add: generate_itinerary_map theme_day_plan day_day_plan lit_def)
  fix doc s'
  assume a: "create_trip ul db req auth i t1 t2 = Inr (doc, s')
      \<and> TripCreateRequest.destination req = Some []"
  from a create_trip_Inr [of ul db req auth i t1 t2 doc s']
  obtain s u where d: "doc = trip_doc ul u req t1 t2 (hex i)"
    by blast
  with a show g: "trip.itinerary doc =
      generate_itinerary ul (TripCreateRequest.prompt req) (TripCreateRequest.days req)
        None (TripCreateRequest.budget req)"
    by (simp add: trip_doc_fields e)
  show "theme x = lit ''Day '' @ str_int (DayPlan.day x) @ lit '' '' @ [bullet] @ lit '' Explorer''"
    if "x \<in> set (trip.itinerary doc)" for x
    using that t [of x "TripCreateRequest.prompt req" "TripCreateRequest.days req"
        "TripCreateRequest.budget req"]
    by (simp add: g e)
next
  fix doc s'
  assume a: "create_trip ul db req auth i t1 t2 = Inr (doc, s')
      \<and> TripCreateRequest.title req = Some []"
  from a create_trip_Inr [of ul db req auth i t1 t2 doc s']
  obtain s u where d: "doc = trip_doc ul u req t1 t2 (hex i)"
    and s: "s' = s\<lparr>trip_collection := trip_collection s @ [trip_doc ul u req t1 t2 i]\<rparr>"
    by blast
  from a d show tt: "trip.title doc =
      or_else (TripCreateRequest.destination req) (lit ''Custom Trip'')
        @ lit '' '' @ [bullet] @ lit '' '' @ str_int (TripCreateRequest.days req) @ lit '' days''"
    by (simp add: trip_doc_fields)
  show "trip.title doc \<noteq> []"
    unfolding tt by (rule derived_title_nonempty)
  from d s show "trip.title (last (trip_collection s')) = trip.title doc"
    by (simp add: trip_doc_fields)
  from a show "create_trip ul db (req\<lparr>TripCreateRequest.title := None\<rparr>) auth i t1 t2 = Inr (doc, s')"
    by (simp add: create_trip_empty_title)
qed

lemma str_int_1: "str_int 1 = lit ''1''"
  by (simp add: str_int_def digits.simps lit_def)

theorem empty_destination_and_title_witness:
  "create_trip id (Some example_store) empty_fields_request alice_header (ObjectId (lit ''77'')) 10 11
     = Inr (trip_doc id alice empty_fields_request 10 11 (lit ''77''),
            example_store\<lparr>trip_collection := trip_collection example_store
              @ [trip_doc id alice empty_fields_request 10 11 (ObjectId (lit ''77''))]\<rparr>)
   \<and> TripCreateRequest.destination empty_fields_request = Some []
   \<and> TripCreateRequest.title empty_fields_request = Some []
   \<and> trip.title (trip_doc id alice empty_fields_request 10 11 (lit ''77''))
       = lit ''Custom Trip '' @ [bullet] @ lit '' 1 days''
   \<and> map theme (trip.itinerary (trip_doc id alice empty_fields_request 10 11 (lit ''77'')))
       = [lit ''Day 1 '' @ [bullet] @ lit '' Explorer'']"
proof -
  let ?doc = "trip_doc id alice empty_fields_request 10 11 (lit ''77'')"
  let ?s' = "example_store\<lparr>trip_collection := trip_collection example_store
      @ [trip_doc id alice empty_fields_request 10 11 (ObjectId (lit ''77''))]\<rparr>"
  have c: "create_trip id (Some example_store) empty_fields_request alice_header
      (ObjectId (lit ''77'')) 10 11 = Inr (?doc, ?s')"
    by (simp add: example_create_trip)
  have d: "TripCreateRequest.destination empty_fields_request = Some []"
    and t: "TripCreateRequest.title empty_fields_request = Some []"
    and n: "TripCreateRequest.days empty_fields_request = 1"
    by (simp_all add: empty_fields_request_def)
  note r = empty_destination_and_title [of id "lit ''See the sights''" 1 "Some (lit ''LUXURY'')"
      "Some example_store" empty_fields_request alice_header "ObjectId (lit ''77'')" 10 11]
  from r c t have "trip.title ?doc =
      or_else (TripCreateRequest.destination empty_fields_request) (lit ''Custom Trip'')
        @ lit '' '' @ [bullet] @ lit '' ''
        @ str_int (TripCreateRequest.days empty_fields_request) @ lit '' days''"
    by blast
  then have 1: "trip.title ?doc = lit ''Custom Trip '' @ [bullet] @ lit '' 1 days''"
    by (simp add: d n str_int_1 lit_def)
  from r c d have i: "trip.itinerary ?doc =
      generate_itinerary id (TripCreateRequest.prompt empty_fields_request)
        (TripCreateRequest.days empty_fields_request) None
        (TripCreateRequest.budget empty_fields_request)"
    by blast
  have u: "[1..1::int] = [1]" by (simp add: upto_rec1)
  have "map theme (generate_itinerary id (TripCreateRequest.prompt empty_fields_request)
        1 None (TripCreateRequest.budget empty_fields_request))
      = [lit ''Day 1 '' @ [bullet] @ lit '' Explorer'']"
    by (simp add: generate_itinerary_map u theme_day_plan str_int_1 lit_def)
  with i n have 2: "map theme (trip.itinerary ?doc) = [lit ''Day 1 '' @ [bullet] @ lit '' Explorer'']"
    by simp
  from c d t 1 2 show ?thesis by blast
qed

text \<open>
  C5. The generator is a function of its four arguments: calls with identical prompt,
  days, destination and budget return identical itineraries. Where the generator is
  called, in \<open>create_trip\<close>, nothing else reaches it: two trips created from requests
  that agree on these four fields have the same itinerary, in the response and in the
  stored document, whatever the store, the caller, the title, the assigned id and the
  clock.
\<close>

theorem generate_itinerary_deterministic:
  "(p1 = p2 \<and> n1 = n2 \<and> dst1 = dst2 \<and> b1 = b2 \<longrightarrow>
      generate_itinerary ul p1 n1 dst1 b1 = generate_itinerary ul p2 n2 dst2 b2)
   \<and> (create_trip ul db1 req1 auth1 i1 t1 t1' = Inr (doc1, s1)
        \<and> create_trip ul db2 req2 auth2 i2 t2 t2' = Inr (doc2, s2)
        \<and> TripCreateRequest.prompt req1 = TripCreateRequest.prompt req2
        \<and> TripCreateRequest.days req1 = TripCreateRequest.days req2
        \<and> TripCreateRequest.destination req1 = TripCreateRequest.destination req2
        \<and> TripCreateRequest.budget req1 = TripCreateRequest.budget req2 \<longrightarrow>
      trip.itinerary doc1 = trip.itinerary doc2
      \<and> trip.itinerary (last (trip_collection s1)) = trip.itinerary (last (trip_collection s2)))"
proof (intro conjI impI)
  show "generate_itinerary ul p1 n1 dst1 b1 = generate_itinerary ul p2 n2 dst2 b2"
    if "p1 = p2 \<and> n1 = n2 \<and> dst1 = dst2 \<and> b1 = b2"
    using that by simp
  assume a: "create_trip ul db1 req1 auth1 i1 t1 t1' = Inr (doc1, s1)
        \<and> create_trip ul db2 req2 auth2 i2 t2 t2' = Inr (doc2, s2)
        \<and> TripCreateRequest.prompt req1 = TripCreateRequest.prompt req2
        \<and> TripCreateRequest.days req1 = TripCreateRequest.days req2
        \<and> TripCreateRequest.destination req1 = TripCreateRequest.destination req2
        \<and> TripCreateRequest.budget req1 = TripCreateRequest.budget req2"
  from a create_trip_Inr [of ul db1 req1 auth1 i1 t1 t1' doc1 s1]
  obtain x1 u1 where 1: "doc1 = trip_doc ul u1 req1 t1 t1' (hex i1)"
    "s1 = x1\<lparr>trip_collection := trip_collection x1 @ [trip_doc ul u1 req1 t1 t1' i1]\<rparr>"
    by blast
  from a create_trip_Inr [of ul db2 req2 auth2 i2 t2 t2' doc2 s2]
  obtain x2 u2 where 2: "doc2 = trip_doc ul u2 req2 t2 t2' (hex i2)"
    "s2 = x2\<lparr>trip_collection := trip_collection x2 @ [trip_doc ul u2 req2 t2 t2' i2]\<rparr>"
    by blast
  from a 1 2 show "trip.itinerary doc1 = trip.itinerary doc2"
    by (simp add: trip_doc_fields)
  from a 1 2 show "trip.itinerary (last (trip_collection s1)) = trip.itinerary (last (trip_collection s2))"
    by (simp add: trip_doc_fields)
qed

lemma trips_store_create_trip_bob:
  "create_trip ul (Some trips_store) req bob_header i t1 t2 =
     Inr (trip_doc ul bob req t1 t2 (hex i),
          trips_store\<lparr>trip_collection :=
             trip_collection trips_store @ [trip_doc ul bob req t1 t2 i]\<rparr>)"
proof -
  have "bearer_token bob_header = bob_token"
    by (simp add: bob_header_def bearer_token_def bob_token_def lit_def strip_def isspace_def)
  moreover have "get_user_by_token (Some trips_store) bob_token = Some bob"
    by (simp add: get_user_by_token_def trips_store_def alice_def bob_def alice_token_def
        bob_token_def lit_def)
  ultimately show ?thesis
    by (simp add: create_trip_def)
qed

theorem generate_itinerary_deterministic_witness:
  "create_trip id (Some example_store) example_request alice_header (ObjectId (lit ''77'')) 10 11
     = Inr (trip_doc id alice example_request 10 11 (lit ''77''),
            example_store\<lparr>trip_collection := trip_collection example_store
              @ [trip_doc id alice example_request 10 11 (ObjectId (lit ''77''))]\<rparr>)
   \<and> create_trip id (Some trips_store) titled_request bob_header (ObjectId (lit ''88'')) 50 51
     = Inr (trip_doc id bob titled_request 50 51 (lit ''88''),
            trips_store\<lparr>trip_collection := trip_collection trips_store
              @ [trip_doc id bob titled_request 50 51 (ObjectId (lit ''88''))]\<rparr>)
   \<and> trip.itinerary (trip_doc id alice example_request 10 11 (lit ''77''))
       = trip.itinerary (trip_doc id bob titled_request 50 51 (lit ''88''))
   \<and> generate_itinerary id (lit ''See the sights'') 3 (Some (lit ''Paris'')) (Some (lit ''luxury''))
       = generate_itinerary id (lit ''See the sights'') (1 + 2) (Some (lit ''Paris'')) (Some (lit ''luxury''))"
proof -
  let ?doc1 = "trip_doc id alice example_request 10 11 (lit ''77'')"
  let ?s1 = "example_store\<lparr>trip_collection := trip_collection example_store
      @ [trip_doc id alice example_request 10 11 (ObjectId (lit ''77''))]\<rparr>"
  let ?doc2 = "trip_doc id bob titled_request 50 51 (lit ''88'')"
  let ?s2 = "trips_store\<lparr>trip_collection := trip_collection trips_store
      @ [trip_doc id bob titled_request 50 51 (ObjectId (lit ''88''))]\<rparr>"
  have c1: "create_trip id (Some example_store) example_request alice_header
      (ObjectId (lit ''77'')) 10 11 = Inr (?doc1, ?s1)"
    by (simp add: example_create_trip)
  have c2: "create_trip id (Some trips_store) titled_request bob_header
      (ObjectId (lit ''88'')) 50 51 = Inr (?doc2, ?s2)"
    by (simp add: trips_store_create_trip_bob)
  have f: "TripCreateRequest.prompt example_request = TripCreateRequest.prompt titled_request"
    "TripCreateRequest.days example_request = TripCreateRequest.days titled_request"
    "TripCreateRequest.destination example_request = TripCreateRequest.destination titled_request"
    "TripCreateRequest.budget example_request = TripCreateRequest.budget titled_request"
    by (simp_all add: titled_request_def)
  have e: "(3::int) = 1 + 2" by simp
  note r = generate_itinerary_deterministic [where ?p1.0 = "lit ''See the sights''"
      and ?p2.0 = "lit ''See the sights''" and ?n1.0 = 3 and ?n2.0 = "1 + 2"
      and ?dst1.0 = "Some (lit ''Paris'')" and ?dst2.0 = "Some (lit ''Paris'')"
      and ?b1.0 = "Some (lit ''luxury'')" and ?b2.0 = "Some (lit ''luxury'')" and ul = id
      and ?db1.0 = "Some example_store" and ?req1.0 = example_request
      and ?auth1.0 = alice_header and ?i1.0 = "ObjectId (lit ''77'')" and ?t1.0 = 10
      and ?t1' = 11 and ?doc1.0 = ?doc1 and ?s1.0 = ?s1
      and ?db2.0 = "Some trips_store" and ?req2.0 = titled_request
      and ?auth2.0 = bob_header and ?i2.0 = "ObjectId (lit ''88'')" and ?t2.0 = 50
      and ?t2' = 51 and ?doc2.0 = ?doc2 and ?s2.0 = ?s2]
  from r c1 c2 f have 3: "trip.itinerary ?doc1 = trip.itinerary ?doc2"
    by blast
  from r e have 4: "generate_itinerary id (lit ''See the sights'') 3 (Some (lit ''Paris''))
      (Some (lit ''luxury''))
       = generate_itinerary id (lit ''See the sights'') (1 + 2) (Some (lit ''Paris''))
      (Some (lit ''luxury''))"
    by blast
  from c1 c2 3 4 show ?thesis by blast
qed

end
